theory Spec2Isabelle
  imports
    Complex_Main
    "HOL-Library.AList"
    "HOL-Library.Char_ord"
    "HOL-Library.List_Lexorder"
    "HOL-Library.Multiset"
begin

section \<open>Python values used by the scripts\<close>

text \<open>
  The scripts \<^verbatim>\<open>sync_firestore.py\<close> and \<^verbatim>\<open>upload_dicoms.py\<close> are embedded as
  pure functions over an explicit object store and an explicit catalog. A Python
  \<^verbatim>\<open>dict\<close> is an association list with distinct keys in insertion order
  (\<open>AList.update\<close> overwrites in place or appends, \<open>map_of\<close> reads). Strings are
  \<open>char list\<close>; a \<open>char\<close> is a code point below 256, so that \<open>CHR 0xB2\<close> is the
  superscript two. Exceptions are values of \<open>py_error\<close>.
\<close>

datatype py_error = IndexError | KeyError | ValueError

text \<open>
  A study identifier is a \<^verbatim>\<open>str\<close> when it comes from an object path, an
  \<^verbatim>\<open>int\<close> when the uploader wrote it, and \<^verbatim>\<open>None\<close> when
  \<^verbatim>\<open>study_data.get('study_id')\<close> finds no such field.
\<close>

datatype pyval = PStr string | PInt int | PNone

type_synonym bytes = "char list"

text \<open>
  \<^verbatim>\<open>str.isdecimal\<close> and \<^verbatim>\<open>str.isdigit\<close> on one character. Below 256 the decimal
  characters are 0 to 9; \<^verbatim>\<open>isdigit\<close> also holds for the superscripts two, three and
  one (B2, B3, B9), which \<^verbatim>\<open>int()\<close> does not accept.
\<close>

definition isdecimal :: "char \<Rightarrow> bool" where
  "isdecimal c = (CHR ''0'' \<le> c \<and> c \<le> CHR ''9'')"

definition isdigit :: "char \<Rightarrow> bool" where
  "isdigit c = (isdecimal c \<or> c = CHR 0xB2 \<or> c = CHR 0xB3 \<or> c = CHR 0xB9)"

definition digit_val :: "char \<Rightarrow> nat" where
  "digit_val c = of_char c - 48"

text \<open>The value of a string of decimal digits.\<close>

definition int_of_digits :: "string \<Rightarrow> nat" where
  "int_of_digits ds = foldl (\<lambda>a c. 10 * a + digit_val c) 0 ds"

text \<open>
  \<^verbatim>\<open>int(s)\<close> for a string: white space is stripped at both ends (the characters 9 to
  13 and 32, and above 126 the two that are white space, 85 and A0), then comes an
  optional sign, then decimal digits with single underscores allowed between two digits.
  More than \<^verbatim>\<open>sys.int_max_str_digits\<close> digits (4300 unless configured) raise
  \<^verbatim>\<open>ValueError\<close>, as every other spelling does.
\<close>

definition isspace :: "char \<Rightarrow> bool" where
  "isspace c = (c \<in> set [CHR 0x09, CHR 0x0A, CHR 0x0B, CHR 0x0C, CHR 0x0D, CHR 0x20,
                           CHR 0x85, CHR 0xA0])"

definition strip :: "string \<Rightarrow> string" where
  "strip s = rev (dropWhile isspace (rev (dropWhile isspace s)))"

fun digits_ok :: "string \<Rightarrow> bool" where
  "digits_ok [] = False"
| "digits_ok [c] = isdecimal c"
| "digits_ok (c # d # r) =
     (if isdecimal c then (if d = CHR ''_'' then digits_ok r else digits_ok (d # r)) else False)"

definition int_max_str_digits :: nat where
  "int_max_str_digits = 4300"

definition py_int :: "string \<Rightarrow> py_error + int" where
  "py_int s =
     (let t = strip s;
          neg = (case t of [] \<Rightarrow> False | c # r \<Rightarrow> c = CHR ''-'');
          body = (case t of [] \<Rightarrow> [] | c # r \<Rightarrow> if c = CHR ''-'' \<or> c = CHR ''+'' then r else t)
      in if digits_ok body \<and> length (filter isdecimal body) \<le> int_max_str_digits
         then Inr ((if neg then - 1 else 1) * int (int_of_digits (filter isdecimal body)))
         else Inl ValueError)"

definition digit_char :: "nat \<Rightarrow> char" where
  "digit_char d = ''0123456789'' ! d"

fun str_nat :: "nat \<Rightarrow> string" where
  "str_nat n = (if n < 10 then [digit_char n] else str_nat (n div 10) @ [digit_char (n mod 10)])"

declare str_nat.simps [simp del]

definition str_int :: "int \<Rightarrow> string" where
  "str_int i = (if i < 0 then CHR ''-'' # str_nat (nat (- i)) else str_nat (nat i))"

text \<open>\<^verbatim>\<open>str(v)\<close>, also what an f-string renders for \<^verbatim>\<open>{v}\<close>.\<close>

fun py_str :: "pyval \<Rightarrow> string" where
  "py_str (PStr s) = s"
| "py_str (PInt i) = str_int i"
| "py_str PNone = ''None''"

text \<open>\<^verbatim>\<open>s.split(sep)\<close> for a one-character separator: never empty, keeps empty segments.\<close>

fun split_on :: "char \<Rightarrow> string \<Rightarrow> string list" where
  "split_on sep [] = [[]]"
| "split_on sep (c # cs) =
     (if c = sep then [] # split_on sep cs
      else (case split_on sep cs of
              [] \<Rightarrow> [[c]]
            | p # ps \<Rightarrow> (c # p) # ps))"

definition endswith :: "string \<Rightarrow> string \<Rightarrow> bool" where
  "endswith s suf = (length suf \<le> length s \<and> drop (length s - length suf) s = suf)"

definition startswith :: "string \<Rightarrow> string \<Rightarrow> bool" where
  "startswith s pre = (take (length pre) s = pre)"

section \<open>External collaborators\<close>

text \<open>
  The object store maps a path to the bytes of the object; the catalog collection
  \<^verbatim>\<open>'studies'\<close> maps a document key to a document body. The DICOM parser
  (\<^verbatim>\<open>pydicom.dcmread\<close> followed by the three attribute conversions) is a parameter
  \<open>dcmread\<close> of every function that reads a header: \<open>None\<close> stands for any exception
  raised inside the \<^verbatim>\<open>try\<close> block, \<open>Some h\<close> carries the attributes that are
  present, already converted by \<^verbatim>\<open>int\<close>, \<^verbatim>\<open>float\<close> and \<^verbatim>\<open>str\<close>.
\<close>

record dicom_header =
  InstanceNumber :: "int option"
  SliceLocation :: "real option"
  SeriesDescription :: "string option"

type_synonym parser = "bytes \<Rightarrow> dicom_header option"

type_synonym bucket = "(string \<times> bytes) list"

definition list_blobs :: "string \<Rightarrow> bucket \<Rightarrow> string list" where
  "list_blobs pre b = filter (\<lambda>n. startswith n pre) (map fst b)"

definition blob_exists :: "bucket \<Rightarrow> string \<Rightarrow> bool" where
  "blob_exists b p = (map_of b p \<noteq> None)"

section \<open>Documents\<close>

text \<open>
  The dictionaries built by the two scripts, as records. A key that only one of the
  scripts writes is an \<open>option\<close> field: \<open>None\<close> means that the key is absent.
\<close>

record file_rec =
  filename :: string
  instance_number :: int
  slice_location :: real
  file_storage_path :: "string option"
  file_size :: "nat option"

record series_rec =
  series_id :: pyval
  description :: string
  slice_count :: nat
  files :: "file_rec list"
  storage_path :: string
  uploaded_count :: "nat option"
  skipped_count :: "nat option"

datatype stamp = SERVER_TIMESTAMP | IsoFormat string

record study_doc =
  study_id :: pyval
  series :: "series_rec list"
  total_series :: nat
  total_slices :: nat
  upload_date :: stamp
  status :: string

type_synonym catalog = "(string \<times> study_doc) list"

definition doc_set :: "string \<Rightarrow> study_doc \<Rightarrow> catalog \<Rightarrow> catalog" where
  "doc_set key body db = AList.update key body db"

definition doc_delete :: "string \<Rightarrow> catalog \<Rightarrow> catalog" where
  "doc_delete key db = AList.delete key db"

section \<open>sync\_firestore.py\<close>

subsection \<open>get\_storage\_studies\<close>

text \<open>
  Dictionary keys are Python values: the storage snapshot is keyed by the \<^verbatim>\<open>str\<close>
  objects cut out of the object paths, the catalog snapshot by whatever the
  \<^verbatim>\<open>study_id\<close> fields hold.
\<close>

type_synonym series_dict = "(string \<times> string list) list"
type_synonym storage_studies = "(pyval \<times> series_dict) list"

definition dict_get :: "('k \<times> 'v) list \<Rightarrow> 'k \<Rightarrow> py_error + 'v" where
  "dict_get d k = (case map_of d k of None \<Rightarrow> Inl KeyError | Some v \<Rightarrow> Inr v)"

text \<open>One iteration of the loop over the listed blob names.\<close>

definition storage_step :: "storage_studies \<Rightarrow> string \<Rightarrow> storage_studies" where
  "storage_step studies name =
     (case split_on CHR ''/'' name of
        [p0, study, ser, fname] \<Rightarrow>
          if \<not> endswith fname ''.dcm'' then studies
          else
            let studies1 = (if map_of studies (PStr study) = None
                            then AList.update (PStr study) [] studies else studies);
                sd = (case map_of studies1 (PStr study) of None \<Rightarrow> [] | Some d \<Rightarrow> d);
                sd1 = (if map_of sd ser = None then AList.update ser [] sd else sd);
                fs = (case map_of sd1 ser of None \<Rightarrow> [] | Some l \<Rightarrow> l)
            in AList.update (PStr study) (AList.update ser (fs @ [fname]) sd1) studies1
      | _ \<Rightarrow> studies)"

definition scan_names :: "string list \<Rightarrow> storage_studies" where
  "scan_names names = foldl storage_step [] names"

definition get_storage_studies :: "bucket \<Rightarrow> storage_studies" where
  "get_storage_studies b = scan_names (list_blobs ''dicoms/'' b)"

subsection \<open>get\_firestore\_studies\<close>

record catalog_entry =
  doc_id :: string
  data :: study_doc

type_synonym firestore_studies = "(pyval \<times> catalog_entry) list"

definition firestore_step :: "firestore_studies \<Rightarrow> string \<times> study_doc \<Rightarrow> firestore_studies" where
  "firestore_step fs d =
     AList.update (study_id (snd d)) \<lparr>doc_id = fst d, data = snd d\<rparr> fs"

definition get_firestore_studies :: "catalog \<Rightarrow> firestore_studies" where
  "get_firestore_studies db = foldl firestore_step [] db"

subsection \<open>download\_dicom\_metadata\<close>

record metadata =
  md_instance_number :: int
  md_slice_location :: real
  md_series_description :: string

definition download_dicom_metadata ::
  "parser \<Rightarrow> bucket \<Rightarrow> pyval \<Rightarrow> string \<Rightarrow> string \<Rightarrow> metadata" where
  "download_dicom_metadata dcmread b study ser fname =
     (let blob_path = ''dicoms/'' @ py_str study @ ''/'' @ ser @ ''/'' @ fname
      in case map_of b blob_path of
           None \<Rightarrow>
             \<lparr>md_instance_number = 0, md_slice_location = 0, md_series_description = []\<rparr>
         | Some dcm_bytes \<Rightarrow>
             (case dcmread dcm_bytes of
                None \<Rightarrow>
                  \<lparr>md_instance_number = 0, md_slice_location = 0, md_series_description = []\<rparr>
              | Some dcm \<Rightarrow>
                  \<lparr>md_instance_number = (case InstanceNumber dcm of Some i \<Rightarrow> i | None \<Rightarrow> 0),
                   md_slice_location = (case SliceLocation dcm of Some x \<Rightarrow> x | None \<Rightarrow> 0),
                   md_series_description =
                     (case SeriesDescription dcm of Some t \<Rightarrow> t | None \<Rightarrow> [])\<rparr>))"

text \<open>A parser that fails on every input, for concrete examples.\<close>

definition unreadable :: parser where
  "unreadable bs = None"

subsection \<open>create\_study\_metadata\<close>

text \<open>
  The sort key \<^verbatim>\<open>int(''.join(filter(str.isdigit, x)) or '0')\<close>. It raises
  \<^verbatim>\<open>ValueError\<close> when \<^verbatim>\<open>int()\<close> does not accept the joined characters.
\<close>

definition sort_num :: "string \<Rightarrow> py_error + int" where
  "sort_num x =
     (let joined = filter isdigit x
      in py_int (if joined = [] then ''0'' else joined))"

text \<open>
  \<^verbatim>\<open>sorted(filenames, key=...)\<close>: the key of every element is computed first, in
  order, and an exception of the key function ends the call; then the elements are
  sorted by their keys, and the sort is stable, as \<open>sort_key\<close> is.
\<close>

fun keyed :: "string list \<Rightarrow> py_error + (int \<times> string) list" where
  "keyed [] = Inr []"
| "keyed (x # xs) =
     (case sort_num x of
        Inl err \<Rightarrow> Inl err
      | Inr k \<Rightarrow>
          (case keyed xs of
             Inl err \<Rightarrow> Inl err
           | Inr ks \<Rightarrow> Inr ((k, x) # ks)))"

definition sorted_numerically :: "string list \<Rightarrow> py_error + string list" where
  "sorted_numerically filenames =
     (case keyed filenames of
        Inl err \<Rightarrow> Inl err
      | Inr ks \<Rightarrow> Inr (map snd (sort_key fst ks)))"

text \<open>
  The body of the loop over \<^verbatim>\<open>series_dict.items()\<close>. \<^verbatim>\<open>filenames_sorted[0]\<close>
  raises on an empty list.
\<close>

definition series_entry ::
  "parser \<Rightarrow> bucket \<Rightarrow> pyval \<Rightarrow> string \<times> string list \<Rightarrow> py_error + series_rec" where
  "series_entry dcmread b study e =
     (let ser = fst e; filenames = snd e
      in case sorted_numerically filenames of
           Inl err \<Rightarrow> Inl err
         | Inr filenames_sorted \<Rightarrow>
             (case filenames_sorted of
                [] \<Rightarrow> Inl IndexError
              | first # _ \<Rightarrow>
                  let first_file_metadata = download_dicom_metadata dcmread b study ser first;
                      file_list =
                        map (\<lambda>fname.
                               let metadata = download_dicom_metadata dcmread b study ser fname
                               in \<lparr>filename = fname,
                                   instance_number = md_instance_number metadata,
                                   slice_location = md_slice_location metadata,
                                   file_storage_path = None,
                                   file_size = None\<rparr>)
                            filenames_sorted
                  in Inr \<lparr>series_id = PStr ser,
                          description = md_series_description first_file_metadata,
                          slice_count = length filenames,
                          files = file_list,
                          storage_path = ''dicoms/'' @ py_str study @ ''/'' @ ser @ ''/'',
                          uploaded_count = None,
                          skipped_count = None\<rparr>))"

fun build_series_list ::
  "parser \<Rightarrow> bucket \<Rightarrow> pyval \<Rightarrow> series_dict \<Rightarrow> series_rec list \<Rightarrow> py_error + series_rec list"
where
  "build_series_list dcmread b study [] series_list = Inr series_list"
| "build_series_list dcmread b study (e # es) series_list =
     (case series_entry dcmread b study e of
        Inl err \<Rightarrow> Inl err
      | Inr s \<Rightarrow> build_series_list dcmread b study es (series_list @ [s]))"

definition create_study_metadata ::
  "parser \<Rightarrow> bucket \<Rightarrow> pyval \<Rightarrow> series_dict \<Rightarrow> py_error + study_doc" where
  "create_study_metadata dcmread b study sd =
     (case build_series_list dcmread b study sd [] of
        Inl err \<Rightarrow> Inl err
      | Inr series_list \<Rightarrow>
          Inr \<lparr>study_id = PStr (py_str study),
               series = series_list,
               total_series = length series_list,
               total_slices = sum_list (map slice_count series_list),
               upload_date = SERVER_TIMESTAMP,
               status = ''ready''\<rparr>)"

subsection \<open>sync\<close>

text \<open>
  The Python sets of study identifiers are lists without duplicates, iterated in the
  order of the snapshot they are taken from.
\<close>

definition storage_keys :: "storage_studies \<Rightarrow> pyval list" where
  "storage_keys ss = map fst ss"

definition firestore_keys :: "firestore_studies \<Rightarrow> pyval list" where
  "firestore_keys fs = map fst fs"

definition orphaned_studies :: "storage_studies \<Rightarrow> firestore_studies \<Rightarrow> pyval list" where
  "orphaned_studies ss fs =
     filter (\<lambda>k. k \<notin> set (storage_keys ss)) (remdups (firestore_keys fs))"

definition missing_studies :: "storage_studies \<Rightarrow> firestore_studies \<Rightarrow> pyval list" where
  "missing_studies ss fs =
     filter (\<lambda>k. k \<notin> set (firestore_keys fs)) (remdups (storage_keys ss))"

definition existing_studies :: "storage_studies \<Rightarrow> firestore_studies \<Rightarrow> pyval list" where
  "existing_studies ss fs =
     filter (\<lambda>k. k \<in> set (firestore_keys fs)) (remdups (storage_keys ss))"

text \<open>
  What sync prints: the three counts and, for each existing study, the number of files
  in storage and the \<^verbatim>\<open>total_slices\<close> of its catalog document.
\<close>

record report =
  n_orphaned :: nat
  n_missing :: nat
  n_existing :: nat
  file_counts :: "(pyval \<times> nat \<times> nat) list"

fun existing_file_counts ::
  "storage_studies \<Rightarrow> firestore_studies \<Rightarrow> pyval list \<Rightarrow> py_error + (pyval \<times> nat \<times> nat) list"
where
  "existing_file_counts ss fs [] = Inr []"
| "existing_file_counts ss fs (k # ks) =
     (case dict_get ss k of
        Inl err \<Rightarrow> Inl err
      | Inr sd \<Rightarrow>
          (case dict_get fs k of
             Inl err \<Rightarrow> Inl err
           | Inr entry \<Rightarrow>
               (case existing_file_counts ss fs ks of
                  Inl err \<Rightarrow> Inl err
                | Inr rest \<Rightarrow>
                    Inr ((k, sum_list (map (\<lambda>e. length (snd e)) sd),
                          total_slices (data entry)) # rest))))"

text \<open>The loop that deletes each orphan by the document key stored in the snapshot.\<close>

fun delete_orphaned ::
  "firestore_studies \<Rightarrow> pyval list \<Rightarrow> catalog \<Rightarrow> catalog \<times> (py_error + unit)" where
  "delete_orphaned fs [] db = (db, Inr ())"
| "delete_orphaned fs (k # ks) db =
     (case dict_get fs k of
        Inl err \<Rightarrow> (db, Inl err)
      | Inr entry \<Rightarrow> delete_orphaned fs ks (doc_delete (doc_id entry) db))"

text \<open>
  The loops that create the missing and update the existing studies have the same body:
  build the document, then \<^verbatim>\<open>document(str(study_id)).set(metadata)\<close>.
\<close>

fun set_studies ::
  "parser \<Rightarrow> bucket \<Rightarrow> storage_studies \<Rightarrow> pyval list \<Rightarrow> catalog \<Rightarrow> catalog \<times> (py_error + unit)"
where
  "set_studies dcmread b ss [] db = (db, Inr ())"
| "set_studies dcmread b ss (k # ks) db =
     (case dict_get ss k of
        Inl err \<Rightarrow> (db, Inl err)
      | Inr sd \<Rightarrow>
          (case create_study_metadata dcmread b k sd of
             Inl err \<Rightarrow> (db, Inl err)
           | Inr metadata \<Rightarrow> set_studies dcmread b ss ks (doc_set (py_str k) metadata db)))"

text \<open>
  sync returns nothing; the model returns the catalog it leaves behind and either the
  exception that ended it or what it printed.
\<close>

definition sync :: "parser \<Rightarrow> bool \<Rightarrow> bucket \<Rightarrow> catalog \<Rightarrow> catalog \<times> (py_error + report)" where
  "sync dcmread dry_run b db =
     (let storage_studies = get_storage_studies b;
          firestore_studies = get_firestore_studies db;
          orphaned = orphaned_studies storage_studies firestore_studies;
          missing = missing_studies storage_studies firestore_studies;
          existing = existing_studies storage_studies firestore_studies
      in case existing_file_counts storage_studies firestore_studies existing of
           Inl err \<Rightarrow> (db, Inl err)
         | Inr counts \<Rightarrow>
             let rep = \<lparr>n_orphaned = length orphaned, n_missing = length missing,
                        n_existing = length existing, file_counts = counts\<rparr>
             in if dry_run then (db, Inr rep)
                else
                  (case delete_orphaned firestore_studies orphaned db of
                     (db1, Inl err) \<Rightarrow> (db1, Inl err)
                   | (db1, Inr u1) \<Rightarrow>
                       (case set_studies dcmread b storage_studies missing db1 of
                          (db2, Inl err) \<Rightarrow> (db2, Inl err)
                        | (db2, Inr u2) \<Rightarrow>
                            (case set_studies dcmread b storage_studies existing db2 of
                               (db3, Inl err) \<Rightarrow> (db3, Inl err)
                             | (db3, Inr u3) \<Rightarrow> (db3, Inr rep)))))"

section \<open>upload\_dicoms.py\<close>

text \<open>
  The local tree: a study directory has a name and its subdirectories (the entries for
  which \<^verbatim>\<open>is_dir()\<close> holds, in iteration order); a series directory has a name and
  its regular files, each with its bytes.
\<close>

record series_dir =
  sd_name :: string
  sd_files :: "(string \<times> bytes) list"

record study_dir =
  st_name :: string
  st_subdirs :: "series_dir list"

subsection \<open>get\_dicom\_metadata\<close>

text \<open>The source reads the file at a local path; the model is given the file's bytes.\<close>

definition get_dicom_metadata :: "parser \<Rightarrow> bytes \<Rightarrow> metadata" where
  "get_dicom_metadata dcmread content =
     (case dcmread content of
        None \<Rightarrow>
          \<lparr>md_instance_number = 0, md_slice_location = 0, md_series_description = ''Unknown''\<rparr>
      | Some dcm \<Rightarrow>
          \<lparr>md_instance_number = (case InstanceNumber dcm of Some i \<Rightarrow> i | None \<Rightarrow> 0),
           md_slice_location = (case SliceLocation dcm of Some x \<Rightarrow> x | None \<Rightarrow> 0),
           md_series_description =
             (case SeriesDescription dcm of Some t \<Rightarrow> t | None \<Rightarrow> ''Unknown'')\<rparr>)"

subsection \<open>upload\_dicom\_file\<close>

definition upload_dicom_file :: "bucket \<Rightarrow> bytes \<Rightarrow> string \<Rightarrow> bucket \<times> bool \<times> string" where
  "upload_dicom_file b content path =
     (if blob_exists b path then (b, False, ''Already exists'')
      else (b @ [(path, content)], True, ''Uploaded''))"

subsection \<open>upload\_series\<close>

record upload_state =
  us_bucket :: bucket
  us_uploaded_count :: nat
  us_skipped_count :: nat
  us_file_list :: "file_rec list"

fun upload_files ::
  "parser \<Rightarrow> int \<Rightarrow> int \<Rightarrow> (string \<times> bytes) list \<Rightarrow> upload_state \<Rightarrow> upload_state" where
  "upload_files dcmread study ser [] st = st"
| "upload_files dcmread study ser (f # fs) st =
     (let path = ''dicoms/'' @ str_int study @ ''/'' @ str_int ser @ ''/'' @ fst f;
          r = upload_dicom_file (us_bucket st) (snd f) path;
          uploaded = fst (snd r);
          metadata = get_dicom_metadata dcmread (snd f)
      in upload_files dcmread study ser fs
           \<lparr>us_bucket = fst r,
            us_uploaded_count = (if uploaded then us_uploaded_count st + 1
                                 else us_uploaded_count st),
            us_skipped_count = (if uploaded then us_skipped_count st
                                else us_skipped_count st + 1),
            us_file_list = us_file_list st @
              [\<lparr>filename = fst f,
                instance_number = md_instance_number metadata,
                slice_location = md_slice_location metadata,
                file_storage_path = Some path,
                file_size = Some (length (snd f))\<rparr>]\<rparr>)"

definition dcm_glob :: "series_dir \<Rightarrow> (string \<times> bytes) list" where
  "dcm_glob d = sort_key fst (filter (\<lambda>f. endswith (fst f) ''.dcm'') (sd_files d))"

definition upload_series ::
  "parser \<Rightarrow> bucket \<Rightarrow> int \<Rightarrow> int \<Rightarrow> series_dir \<Rightarrow> bucket \<times> series_rec option" where
  "upload_series dcmread b study ser d =
     (let dcm_files = dcm_glob d
      in case dcm_files of
           [] \<Rightarrow> (b, None)
         | first # _ \<Rightarrow>
             let st = upload_files dcmread study ser dcm_files
                        \<lparr>us_bucket = b, us_uploaded_count = 0, us_skipped_count = 0,
                         us_file_list = []\<rparr>;
                 first_dcm_metadata = get_dicom_metadata dcmread (snd first)
             in (us_bucket st,
                 Some \<lparr>series_id = PInt ser,
                       description = md_series_description first_dcm_metadata,
                       slice_count = length dcm_files,
                       files = us_file_list st,
                       storage_path = ''dicoms/'' @ str_int study @ ''/'' @ str_int ser @ ''/'',
                       uploaded_count = Some (us_uploaded_count st),
                       skipped_count = Some (us_skipped_count st)\<rparr>))"

subsection \<open>upload\_study\<close>

fun upload_all_series ::
  "parser \<Rightarrow> int \<Rightarrow> series_dir list \<Rightarrow> bucket \<Rightarrow> series_rec list
     \<Rightarrow> bucket \<times> (py_error + series_rec list)" where
  "upload_all_series dcmread study [] b series_list = (b, Inr series_list)"
| "upload_all_series dcmread study (d # ds) b series_list =
     (case py_int (sd_name d) of
        Inl err \<Rightarrow> (b, Inl err)
      | Inr ser \<Rightarrow>
          (case upload_series dcmread b study ser d of
             (b', None) \<Rightarrow> upload_all_series dcmread study ds b' series_list
           | (b', Some series_info) \<Rightarrow>
               upload_all_series dcmread study ds b' (series_list @ [series_info])))"

text \<open>
  \<open>now\<close> is the text of \<^verbatim>\<open>datetime.utcnow().isoformat()\<close>. The result is the store
  and the catalog left behind, and the exception, \<^verbatim>\<open>None\<close>, or the document
  returned.
\<close>

definition upload_study ::
  "parser \<Rightarrow> string \<Rightarrow> bucket \<Rightarrow> catalog \<Rightarrow> study_dir
     \<Rightarrow> (bucket \<times> catalog) \<times> (py_error + study_doc option)" where
  "upload_study dcmread now b db sdir =
     (case py_int (st_name sdir) of
        Inl err \<Rightarrow> ((b, db), Inl err)
      | Inr study \<Rightarrow>
          if st_subdirs sdir = [] then ((b, db), Inr None)
          else
            (case upload_all_series dcmread study (sort_key sd_name (st_subdirs sdir)) b [] of
               (b', Inl err) \<Rightarrow> ((b', db), Inl err)
             | (b', Inr series_list) \<Rightarrow>
                 let study_metadata =
                       \<lparr>study_id = PInt study,
                        series = series_list,
                        total_series = length series_list,
                        total_slices = sum_list (map slice_count series_list),
                        upload_date = IsoFormat now,
                        status = ''ready''\<rparr>
                 in ((b', doc_set (str_int study) study_metadata db),
                     Inr (Some study_metadata))))"

section \<open>Predicates and examples used in the statements\<close>

text \<open>
  What the scanner keeps true while it folds over the names \<open>N\<close>: keys are distinct,
  no study has an empty series map, no series an empty list, and every filename ends in
  the extension and comes from a name of \<open>N\<close> that splits into four segments.
\<close>

definition scan_inv :: "string set \<Rightarrow> storage_studies \<Rightarrow> bool" where
  "scan_inv N ss \<longleftrightarrow>
     distinct (map fst ss) \<and>
     (\<forall>k sd. map_of ss k = Some sd \<longrightarrow>
        sd \<noteq> [] \<and> distinct (map fst sd) \<and>
        (\<forall>ser fns. map_of sd ser = Some fns \<longrightarrow>
           fns \<noteq> [] \<and>
           (\<forall>f\<in>set fns. endswith f ''.dcm'' \<and>
              (\<exists>n\<in>N. \<exists>p0 st. k = PStr st \<and> split_on CHR ''/'' n = [p0, st, ser, f]))))"

text \<open>
  The filenames on which the sort key is defined: every character that
  \<^verbatim>\<open>str.isdigit\<close> accepts is a decimal digit, and there are no more of them than
  \<^verbatim>\<open>int()\<close> converts.
\<close>

definition decimal_name :: "string \<Rightarrow> bool" where
  "decimal_name x \<longleftrightarrow>
     list_all isdecimal (filter isdigit x)
     \<and> length (filter isdigit x) \<le> int_max_str_digits"

text \<open>The integer that the digit characters of a name denote; 0 when there are none.\<close>

definition digit_key :: "string \<Rightarrow> int" where
  "digit_key x = int (int_of_digits (filter isdigit x))"




text \<open>A catalog document with the given \<^verbatim>\<open>study_id\<close> and no series, for concrete examples.\<close>

definition stub_doc :: "pyval \<Rightarrow> study_doc" where
  "stub_doc k = \<lparr>study_id = k, series = [], total_series = 0, total_slices = 0,
                 upload_date = SERVER_TIMESTAMP, status = ''ready''\<rparr>"

text \<open>
  The invariants of the data model: the two totals of a study document and the
  file count of each of its series.
\<close>

definition doc_invariant :: "study_doc \<Rightarrow> bool" where
  "doc_invariant d \<longleftrightarrow>
     total_series d = length (series d)
     \<and> total_slices d = sum_list (map slice_count (series d))
     \<and> list_all (\<lambda>s. slice_count s = length (files s)) (series d)"

text \<open>
  The destination path that upload\_series computes for a file.
\<close>

definition dest_path :: "int \<Rightarrow> int \<Rightarrow> string \<Rightarrow> string" where
  "dest_path study ser fname = ''dicoms/'' @ str_int study @ ''/'' @ str_int ser @ ''/'' @ fname"

text \<open>
  The entry that upload\_series appends to the file list for a local file.
\<close>

definition local_file_rec :: "parser \<Rightarrow> int \<Rightarrow> int \<Rightarrow> string \<times> bytes \<Rightarrow> file_rec" where
  "local_file_rec dcmread study ser f =
     \<lparr>filename = fst f,
      instance_number = md_instance_number (get_dicom_metadata dcmread (snd f)),
      slice_location = md_slice_location (get_dicom_metadata dcmread (snd f)),
      file_storage_path = Some (dest_path study ser (fst f)),
      file_size = Some (length (snd f))\<rparr>"

text \<open>
  The counters and the file list of upload\_series before its loop.
\<close>

definition init_state :: "bucket \<Rightarrow> upload_state" where
  "init_state b = \<lparr>us_bucket = b, us_uploaded_count = 0, us_skipped_count = 0, us_file_list = []\<rparr>"







section \<open>Reconciliation completeness\<close>

text \<open>
  C1. For every storage snapshot and every catalog snapshot, the orphaned, missing and
  existing studies are keys(C) minus keys(S), keys(S) minus keys(C) and keys(S)
  intersected with keys(C); together they are exactly keys(S) united with keys(C), and
  no study is in two of them.
\<close>

theorem reconciliation_partition:
  "set (orphaned_studies ss fs) = set (firestore_keys fs) - set (storage_keys ss)
   \<and> set (missing_studies ss fs) = set (storage_keys ss) - set (firestore_keys fs)
   \<and> set (existing_studies ss fs) = set (storage_keys ss) \<inter> set (firestore_keys fs)
   \<and> set (orphaned_studies ss fs) \<union> set (missing_studies ss fs) \<union> set (existing_studies ss fs)
       = set (storage_keys ss) \<union> set (firestore_keys fs)
   \<and> set (orphaned_studies ss fs) \<inter> set (missing_studies ss fs) = {}
   \<and> set (orphaned_studies ss fs) \<inter> set (existing_studies ss fs) = {}
   \<and> set (missing_studies ss fs) \<inter> set (existing_studies ss fs) = {}"
  unfolding orphaned_studies_def missing_studies_def existing_studies_def
  by auto

theorem reconciliation_partition_witness:
  "orphaned_studies [(PStr ''A'', []), (PStr ''B'', [])]
      [(PStr ''B'', \<lparr>doc_id = ''B'', data = stub_doc (PStr ''B'')\<rparr>),
       (PStr ''C'', \<lparr>doc_id = ''C'', data = stub_doc (PStr ''C'')\<rparr>)] = [PStr ''C'']
   \<and> missing_studies [(PStr ''A'', []), (PStr ''B'', [])]
      [(PStr ''B'', \<lparr>doc_id = ''B'', data = stub_doc (PStr ''B'')\<rparr>),
       (PStr ''C'', \<lparr>doc_id = ''C'', data = stub_doc (PStr ''C'')\<rparr>)] = [PStr ''A'']
   \<and> existing_studies [(PStr ''A'', []), (PStr ''B'', [])]
      [(PStr ''B'', \<lparr>doc_id = ''B'', data = stub_doc (PStr ''B'')\<rparr>),
       (PStr ''C'', \<lparr>doc_id = ''C'', data = stub_doc (PStr ''C'')\<rparr>)] = [PStr ''B'']"
  using reconciliation_partition[of "[(PStr ''A'', []), (PStr ''B'', [])]"
      "[(PStr ''B'', \<lparr>doc_id = ''B'', data = stub_doc (PStr ''B'')\<rparr>),
        (PStr ''C'', \<lparr>doc_id = ''C'', data = stub_doc (PStr ''C'')\<rparr>)]"]
  by (simp add: orphaned_studies_def missing_studies_def existing_studies_def
      storage_keys_def firestore_keys_def)

section \<open>The sort key and the series records\<close>

lemma isdecimal_code: "isdecimal c \<longleftrightarrow> 48 \<le> (of_char c :: nat) \<and> (of_char c :: nat) \<le> 57"
  by (simp add: isdecimal_def less_eq_char_def)

lemma isdigit_not_space: "isdigit c \<Longrightarrow> \<not> isspace c"
  by (auto simp: isdigit_def isdecimal_code isspace_def)

lemma isdigit_not_sign: "isdigit c \<Longrightarrow> c \<noteq> CHR ''-'' \<and> c \<noteq> CHR ''+'' \<and> c \<noteq> CHR ''_''"
  by (auto simp: isdigit_def isdecimal_code)

lemma isdecimal_isdigit: "isdecimal c \<Longrightarrow> isdigit c"
  by (simp add: isdigit_def)

lemma strip_digits:
  assumes "\<forall>c\<in>set ds. isdigit c"
  shows "strip ds = ds"
proof (cases "ds = []")
  case True
  then show ?thesis by (simp add: strip_def)
next
  case False
  then have "\<not> isspace (hd ds)" "\<not> isspace (last ds)"
    using assms isdigit_not_space by simp_all
  then have a: "dropWhile isspace ds = ds" and b: "dropWhile isspace (rev ds) = rev ds"
    using False by (simp_all add: dropWhile_eq_self_iff hd_rev)
  show ?thesis unfolding strip_def a b by simp
qed

lemma digits_ok_decimal:
  "ds \<noteq> [] \<Longrightarrow> \<forall>c\<in>set ds. isdecimal c \<Longrightarrow> digits_ok ds"
proof (induction ds rule: digits_ok.induct)
  case 1
  then show ?case by simp
next
  case (2 c)
  then show ?case by simp
next
  case (3 c d r)
  then have "d \<noteq> CHR ''_''" using isdigit_not_sign[of d] isdecimal_isdigit[of d] by auto
  with 3 show ?case by simp
qed

lemma digits_ok_chars:
  "digits_ok s \<Longrightarrow> \<forall>c\<in>set s. isdecimal c \<or> c = CHR ''_''"
  by (induction s rule: digits_ok.induct) (auto split: if_splits)

lemma py_int_ValueError: "py_int s = Inl err \<Longrightarrow> err = ValueError"
  by (auto simp: py_int_def Let_def split: if_splits)

lemma py_int_digits:
  assumes ne: "ds \<noteq> []" and dg: "\<forall>c\<in>set ds. isdigit c"
  shows "py_int ds =
     (if (\<forall>c\<in>set ds. isdecimal c) \<and> length ds \<le> int_max_str_digits
      then Inr (int (int_of_digits ds)) else Inl ValueError)"
proof -
  obtain c r where cr: "ds = c # r" using ne by (cases ds) auto
  have st: "strip ds = ds" by (rule strip_digits[OF dg])
  have sg: "c \<noteq> CHR ''-''" "c \<noteq> CHR ''+''" using dg cr isdigit_not_sign[of c] by auto
  have body: "py_int ds =
     (if digits_ok ds \<and> length (filter isdecimal ds) \<le> int_max_str_digits
      then Inr (int (int_of_digits (filter isdecimal ds))) else Inl ValueError)"
    unfolding py_int_def st Let_def using sg by (simp add: cr)
  show ?thesis
  proof (cases "\<forall>c\<in>set ds. isdecimal c")
    case True
    then have "filter isdecimal ds = ds" by simp
    moreover have "digits_ok ds" using ne True by (rule digits_ok_decimal)
    ultimately show ?thesis using True by (simp add: body)
  next
    case False
    then obtain x where x: "x \<in> set ds" "\<not> isdecimal x" by blast
    with dg have "x \<noteq> CHR ''_''" using isdigit_not_sign[of x] by auto
    with x have "\<not> digits_ok ds" using digits_ok_chars[of ds] by blast
    with False show ?thesis by (simp add: body)
  qed
qed

lemma py_int_zero: "py_int ''0'' = Inr 0"
  by (simp add: py_int_def strip_def isspace_def isdecimal_def int_of_digits_def digit_val_def
      int_max_str_digits_def)

lemma sort_num_eq:
  "sort_num x = (if decimal_name x then Inr (int (int_of_digits (filter isdigit x)))
                 else Inl ValueError)"
proof (cases "filter isdigit x = []")
  case True
  then show ?thesis
    by (simp add: sort_num_def decimal_name_def py_int_zero int_of_digits_def)
next
  case False
  have "\<forall>c\<in>set (filter isdigit x). isdigit c" by simp
  from py_int_digits[OF False this] False show ?thesis
    by (simp add: sort_num_def decimal_name_def list_all_iff Let_def)
qed

lemma sort_num_Inl: "sort_num x = Inl err \<longleftrightarrow> (\<not> decimal_name x \<and> err = ValueError)"
  by (auto simp: sort_num_eq)

lemma sort_num_decimal: "decimal_name x \<Longrightarrow> sort_num x = Inr (digit_key x)"
  by (simp add: sort_num_eq digit_key_def)

lemma keyed_eq:
  "keyed fns = (if list_all decimal_name fns then Inr (map (\<lambda>x. (digit_key x, x)) fns)
                else Inl ValueError)"
proof (induction fns)
  case Nil
  show ?case by simp
next
  case (Cons x xs)
  show ?case
  proof (cases "decimal_name x")
    case True
    then show ?thesis using Cons.IH by (simp add: sort_num_decimal)
  next
    case False
    then have "sort_num x = Inl ValueError" by (simp add: sort_num_eq)
    with False show ?thesis by simp
  qed
qed

lemma insort_key_decorated':
  "insort_key fst (f x, x) (map (\<lambda>y. (f y, y)) ys) = map (\<lambda>y. (f y, y)) (insort_key f x ys)"
  by (induction ys) simp_all

lemma sort_key_decorated':
  "sort_key fst (map (\<lambda>y. (f y, y)) xs) = map (\<lambda>y. (f y, y)) (sort_key f xs)"
  by (induction xs) (simp_all add: insort_key_decorated')

lemma sort_key_decorated:
  "map snd (sort_key fst (map (\<lambda>y. (f y, y)) xs)) = sort_key f xs"
  by (simp add: sort_key_decorated' comp_def)

lemma sorted_numerically_eq:
  "sorted_numerically fns =
     (if list_all decimal_name fns then Inr (sort_key digit_key fns) else Inl ValueError)"
  by (simp add: sorted_numerically_def keyed_eq sort_key_decorated)

lemma sort_key_Nil_iff: "sort_key f xs = [] \<longleftrightarrow> xs = []"
  by (metis length_sort length_0_conv)

lemma series_entry_Inl_iff:
  "series_entry dcmread b study e = Inl err \<longleftrightarrow>
     (\<not> list_all decimal_name (snd e) \<and> err = ValueError)
     \<or> (list_all decimal_name (snd e) \<and> snd e = [] \<and> err = IndexError)"
  by (auto simp: series_entry_def Let_def sorted_numerically_eq sort_key_Nil_iff
      split: list.splits)


lemma series_entry_fields:
  assumes "series_entry dcmread b study e = Inr s"
  shows "series_id s = PStr (fst e)"
    and "slice_count s = length (snd e)"
    and "map filename (files s) = sort_key digit_key (snd e)"
    and "length (files s) = length (snd e)"
    and "storage_path s = ''dicoms/'' @ py_str study @ ''/'' @ fst e @ ''/''"
    and "files s = map (\<lambda>fname. \<lparr>filename = fname,
            instance_number = md_instance_number (download_dicom_metadata dcmread b study (fst e) fname),
            slice_location = md_slice_location (download_dicom_metadata dcmread b study (fst e) fname),
            file_storage_path = None, file_size = None\<rparr>) (sort_key digit_key (snd e))"
    and "list_all decimal_name (snd e)"
    and "snd e \<noteq> []"
proof -
  let ?fs = "sort_key digit_key (snd e)"
  show ok: "list_all decimal_name (snd e)"
    using assms series_entry_Inl_iff[of dcmread b study e ValueError] by auto
  show ne: "snd e \<noteq> []"
    using assms ok series_entry_Inl_iff[of dcmread b study e IndexError] by auto
  have sn: "sorted_numerically (snd e) = Inr ?fs" using ok by (simp add: sorted_numerically_eq)
  from ne obtain first rest where fr: "?fs = first # rest"
    by (cases ?fs) (auto simp: sort_key_Nil_iff)
  have s: "s = \<lparr>series_id = PStr (fst e),
                description = md_series_description
                   (download_dicom_metadata dcmread b study (fst e) first),
                slice_count = length (snd e),
                files = map (\<lambda>fname. \<lparr>filename = fname,
                    instance_number = md_instance_number
                       (download_dicom_metadata dcmread b study (fst e) fname),
                    slice_location = md_slice_location
                       (download_dicom_metadata dcmread b study (fst e) fname),
                    file_storage_path = None, file_size = None\<rparr>) ?fs,
                storage_path = ''dicoms/'' @ py_str study @ ''/'' @ fst e @ ''/'',
                uploaded_count = None, skipped_count = None\<rparr>"
    using assms fr by (simp add: series_entry_def Let_def sn)
  show "series_id s = PStr (fst e)" by (subst s) simp
  show "slice_count s = length (snd e)" by (subst s) simp
  show "map filename (files s) = ?fs" by (subst s) (simp add: comp_def)
  show "length (files s) = length (snd e)" by (subst s) simp
  show "storage_path s = ''dicoms/'' @ py_str study @ ''/'' @ fst e @ ''/''"
    by (subst s) simp
  show "files s = map (\<lambda>fname. \<lparr>filename = fname,
            instance_number = md_instance_number (download_dicom_metadata dcmread b study (fst e) fname),
            slice_location = md_slice_location (download_dicom_metadata dcmread b study (fst e) fname),
            file_storage_path = None, file_size = None\<rparr>) ?fs"
    by (subst s) simp
qed





lemma build_series_list_Inr:
  "build_series_list dcmread b study sd acc = Inr r \<Longrightarrow>
     \<exists>r'. r = acc @ r' \<and> list_all2 (\<lambda>e s. series_entry dcmread b study e = Inr s) sd r'"
proof (induction sd arbitrary: acc)
  case Nil
  then show ?case by simp
next
  case (Cons e es)
  then obtain s where s: "series_entry dcmread b study e = Inr s"
    and r: "build_series_list dcmread b study es (acc @ [s]) = Inr r"
    by (auto split: sum.splits)
  from Cons.IH[OF r] obtain r' where "r = (acc @ [s]) @ r'"
    "list_all2 (\<lambda>e s. series_entry dcmread b study e = Inr s) es r'" by blast
  then show ?case using s by (intro exI[of _ "s # r'"]) simp
qed




lemma create_study_metadata_series:
  assumes "create_study_metadata dcmread b study sd = Inr doc"
  shows "list_all2 (\<lambda>e s. series_entry dcmread b study e = Inr s) sd (series doc)"
    and "study_id doc = PStr (py_str study)"
    and "total_series doc = length (series doc)"
    and "total_slices doc = sum_list (map slice_count (series doc))"
    and "status doc = ''ready''"
    and "upload_date doc = SERVER_TIMESTAMP"
proof -
  from assms obtain r where r: "build_series_list dcmread b study sd [] = Inr r"
    and d: "doc = \<lparr>study_id = PStr (py_str study), series = r, total_series = length r,
               total_slices = sum_list (map slice_count r), upload_date = SERVER_TIMESTAMP,
               status = ''ready''\<rparr>"
    by (auto simp: create_study_metadata_def split: sum.splits)
  from build_series_list_Inr[OF r] d
  show "list_all2 (\<lambda>e s. series_entry dcmread b study e = Inr s) sd (series doc)" by simp
  from d show "study_id doc = PStr (py_str study)" "total_series doc = length (series doc)"
    "total_slices doc = sum_list (map slice_count (series doc))" "status doc = ''ready''"
    "upload_date doc = SERVER_TIMESTAMP"
    by simp_all
qed

section \<open>Properties of get\_storage\_studies\<close>

lemma storage_step_skip:
  "(\<nexists>p0 st ser f. split_on CHR ''/'' n = [p0, st, ser, f] \<and> endswith f ''.dcm'')
     \<Longrightarrow> storage_step ss n = ss"
  by (auto simp: storage_step_def split: list.splits)

lemma storage_step_add:
  assumes "split_on CHR ''/'' n = [p0, st, ser, f]" and "endswith f ''.dcm''"
  shows "storage_step ss n =
     AList.update (PStr st)
       (AList.update ser
          ((case map_of (case map_of ss (PStr st) of None \<Rightarrow> [] | Some d \<Rightarrow> d) ser of
              None \<Rightarrow> [] | Some l \<Rightarrow> l) @ [f])
          (case map_of ss (PStr st) of None \<Rightarrow> [] | Some d \<Rightarrow> d))
       ss"
  using assms
  by (auto simp: storage_step_def Let_def AList.update_conv' split: option.splits)

lemma scan_inv_step:
  assumes inv: "scan_inv N ss" and n: "n \<in> N"
  shows "scan_inv N (storage_step ss n)"
proof (cases "\<exists>p0 st ser f. split_on CHR ''/'' n = [p0, st, ser, f] \<and> endswith f ''.dcm''")
  case False
  then show ?thesis using inv storage_step_skip[of n ss] by simp
next
  case True
  then obtain p0 st ser f where sp: "split_on CHR ''/'' n = [p0, st, ser, f]"
    and ew: "endswith f ''.dcm''" by blast
  define sd where "sd = (case map_of ss (PStr st) of None \<Rightarrow> [] | Some d \<Rightarrow> d)"
  define fs where "fs = (case map_of sd ser of None \<Rightarrow> [] | Some l \<Rightarrow> l)"
  define sd' where "sd' = AList.update ser (fs @ [f]) sd"
  have step: "storage_step ss n = AList.update (PStr st) sd' ss"
    using storage_step_add[OF sp ew, of ss] by (simp add: sd_def fs_def sd'_def)
  have dss: "distinct (map fst ss)" using inv by (simp add: scan_inv_def)
  have sd_props: "distinct (map fst sd)"
    "\<And>s fns. map_of sd s = Some fns \<Longrightarrow> fns \<noteq> [] \<and>
           (\<forall>g\<in>set fns. endswith g ''.dcm'' \<and>
              (\<exists>m\<in>N. \<exists>q0 st'. PStr st = PStr st' \<and> split_on CHR ''/'' m = [q0, st', s, g]))"
  proof -
    show "distinct (map fst sd)"
      using inv by (auto simp: sd_def scan_inv_def split: option.splits)
    fix s fns assume "map_of sd s = Some fns"
    then show "fns \<noteq> [] \<and>
           (\<forall>g\<in>set fns. endswith g ''.dcm'' \<and>
              (\<exists>m\<in>N. \<exists>q0 st'. PStr st = PStr st' \<and> split_on CHR ''/'' m = [q0, st', s, g]))"
    proof (cases "map_of ss (PStr st)")
      case None
      then show ?thesis using \<open>map_of sd s = Some fns\<close> by (simp add: sd_def)
    next
      case (Some d)
      then have "map_of d s = Some fns" using \<open>map_of sd s = Some fns\<close> by (simp add: sd_def)
      with inv Some show ?thesis unfolding scan_inv_def by blast
    qed
  qed
  have fs_props: "\<forall>g\<in>set fs. endswith g ''.dcm'' \<and>
              (\<exists>m\<in>N. \<exists>q0 st'. PStr st = PStr st' \<and> split_on CHR ''/'' m = [q0, st', ser, g])"
    using sd_props(2)[of ser] by (cases "map_of sd ser") (auto simp: fs_def)
  have new_props: "sd' \<noteq> []" "distinct (map fst sd')"
    "\<And>s fns. map_of sd' s = Some fns \<Longrightarrow> fns \<noteq> [] \<and>
           (\<forall>g\<in>set fns. endswith g ''.dcm'' \<and>
              (\<exists>m\<in>N. \<exists>q0 st'. PStr st = PStr st' \<and> split_on CHR ''/'' m = [q0, st', s, g]))"
  proof -
    show "sd' \<noteq> []" by (simp add: sd'_def)
    show "distinct (map fst sd')" using sd_props(1) by (simp add: sd'_def AList.distinct_update)
    fix s fns assume a: "map_of sd' s = Some fns"
    show "fns \<noteq> [] \<and>
           (\<forall>g\<in>set fns. endswith g ''.dcm'' \<and>
              (\<exists>m\<in>N. \<exists>q0 st'. PStr st = PStr st' \<and> split_on CHR ''/'' m = [q0, st', s, g]))"
    proof (cases "s = ser")
      case True
      then have "fns = fs @ [f]" using a by (simp add: sd'_def AList.update_conv')
      then show ?thesis using fs_props ew sp n True by auto
    next
      case False
      then have "map_of sd s = Some fns" using a by (simp add: sd'_def AList.update_conv')
      then show ?thesis by (rule sd_props(2))
    qed
  qed
  show ?thesis
    unfolding scan_inv_def step
  proof (intro conjI)
    show "distinct (map fst (AList.update (PStr st) sd' ss))"
      using dss by (rule AList.distinct_update)
  next
    show "\<forall>k d. map_of (AList.update (PStr st) sd' ss) k = Some d \<longrightarrow>
        d \<noteq> [] \<and> distinct (map fst d) \<and>
        (\<forall>s fns. map_of d s = Some fns \<longrightarrow> fns \<noteq> [] \<and>
           (\<forall>g\<in>set fns. endswith g ''.dcm'' \<and>
              (\<exists>m\<in>N. \<exists>q0 st'. k = PStr st' \<and> split_on CHR ''/'' m = [q0, st', s, g])))"
    proof (intro allI impI)
      fix k d assume a: "map_of (AList.update (PStr st) sd' ss) k = Some d"
      show "d \<noteq> [] \<and> distinct (map fst d) \<and>
        (\<forall>s fns. map_of d s = Some fns \<longrightarrow> fns \<noteq> [] \<and>
           (\<forall>g\<in>set fns. endswith g ''.dcm'' \<and>
              (\<exists>m\<in>N. \<exists>q0 st'. k = PStr st' \<and> split_on CHR ''/'' m = [q0, st', s, g])))"
      proof (cases "k = PStr st")
        case True
        then have "d = sd'" using a by (simp add: AList.update_conv')
        then show ?thesis using new_props True by blast
      next
        case False
        then have "map_of ss k = Some d" using a by (simp add: AList.update_conv')
        then show ?thesis using inv unfolding scan_inv_def by blast
      qed
    qed
  qed
qed

lemma scan_inv_foldl:
  "scan_inv N ss \<Longrightarrow> set ns \<subseteq> N \<Longrightarrow> scan_inv N (foldl storage_step ss ns)"
  by (induction ns arbitrary: ss) (auto intro: scan_inv_step)

lemma scan_inv_scan_names: "scan_inv (set ns) (scan_names ns)"
  unfolding scan_names_def by (rule scan_inv_foldl) (simp_all add: scan_inv_def)

lemma scan_inv_get_storage_studies:
  "scan_inv (set (list_blobs ''dicoms/'' b)) (get_storage_studies b)"
  unfolding get_storage_studies_def by (rule scan_inv_scan_names)

lemma snapshot_entry:
  assumes "(study, sd) \<in> set (get_storage_studies b)"
  shows "sd \<noteq> []" and "distinct (map fst sd)"
    and "\<And>ser fns. (ser, fns) \<in> set sd \<Longrightarrow> fns \<noteq> [] \<and>
           (\<forall>f\<in>set fns. endswith f ''.dcm'' \<and>
              (\<exists>n\<in>set (list_blobs ''dicoms/'' b). \<exists>p0 st.
                  study = PStr st \<and> split_on CHR ''/'' n = [p0, st, ser, f]))"
proof -
  note inv = scan_inv_get_storage_studies[of b]
  then have d: "distinct (map fst (get_storage_studies b))" by (simp add: scan_inv_def)
  with assms have m: "map_of (get_storage_studies b) study = Some sd" by simp
  from inv m show "sd \<noteq> []" and dsd: "distinct (map fst sd)"
    unfolding scan_inv_def by blast+
  fix ser fns assume "(ser, fns) \<in> set sd"
  with dsd have "map_of sd ser = Some fns" by simp
  with inv m show "fns \<noteq> [] \<and>
           (\<forall>f\<in>set fns. endswith f ''.dcm'' \<and>
              (\<exists>n\<in>set (list_blobs ''dicoms/'' b). \<exists>p0 st.
                  study = PStr st \<and> split_on CHR ''/'' n = [p0, st, ser, f]))"
    unfolding scan_inv_def by blast
qed

lemma dict_get_Inr_iff: "(\<exists>v. dict_get d k = Inr v) \<longleftrightarrow> k \<in> fst ` set d"
proof (cases "map_of d k")
  case None
  then have "k \<notin> fst ` set d" by (simp add: map_of_eq_None_iff)
  with None show ?thesis by (simp add: dict_get_def)
next
  case (Some v)
  then have "k \<in> fst ` set d" by (metis map_of_eq_None_iff option.distinct(1))
  with Some show ?thesis by (simp add: dict_get_def)
qed

lemma dict_get_InrD: "dict_get d k = Inr v \<Longrightarrow> map_of d k = Some v"
  by (auto simp: dict_get_def split: option.splits)

lemma category_subsets:
  "set (orphaned_studies ss fs) \<subseteq> fst ` set fs"
  "set (missing_studies ss fs) \<subseteq> fst ` set ss"
  "set (existing_studies ss fs) \<subseteq> fst ` set ss"
  "set (existing_studies ss fs) \<subseteq> fst ` set fs"
  "set (missing_studies ss fs) \<union> set (existing_studies ss fs) = fst ` set ss"
  "set (orphaned_studies ss fs) = fst ` set fs - fst ` set ss"
  by (auto simp: orphaned_studies_def missing_studies_def existing_studies_def
      storage_keys_def firestore_keys_def)

lemma snapshot_lookup:
  assumes "k \<in> fst ` set (get_storage_studies b)"
  shows "\<exists>sd. dict_get (get_storage_studies b) k = Inr sd \<and> (k, sd) \<in> set (get_storage_studies b)"
proof -
  from assms obtain sd where "dict_get (get_storage_studies b) k = Inr sd"
    using dict_get_Inr_iff[of "get_storage_studies b" k] by blast
  moreover from this have "(k, sd) \<in> set (get_storage_studies b)"
    by (meson dict_get_InrD map_of_SomeD)
  ultimately show ?thesis by blast
qed


text \<open>
  C10. Every entry of the snapshot returned by the storage scanner has at least one
  series; every series has at least one filename; every filename ends in .dcm and is
  the fourth segment of a listed name that splits into exactly four segments, the
  second and third being the study and the series. Hence in a reconciliation run, where
  the builder is called on the missing and on the existing studies with the series map
  that the snapshot holds for them, that series map is there and is not empty.
\<close>

theorem scanner_nondegenerate:
  "((study, sd) \<in> set (get_storage_studies b) \<longrightarrow>
      sd \<noteq> []
      \<and> (\<forall>e\<in>set sd. snd e \<noteq> [] \<and>
            (\<forall>f\<in>set (snd e). endswith f ''.dcm'' \<and>
               (\<exists>n\<in>set (list_blobs ''dicoms/'' b). \<exists>p0 st.
                   study = PStr st \<and> split_on CHR ''/'' n = [p0, st, fst e, f]))))
   \<and> (k \<in> set (missing_studies (get_storage_studies b) fs)
          \<union> set (existing_studies (get_storage_studies b) fs) \<longrightarrow>
        (\<exists>sd'. dict_get (get_storage_studies b) k = Inr sd' \<and> sd' \<noteq> []))"
proof (intro conjI impI ballI)
  assume a: "(study, sd) \<in> set (get_storage_studies b)"
  show "sd \<noteq> []" by (rule snapshot_entry(1)[OF a])
  fix e assume "e \<in> set sd"
  then have e: "(fst e, snd e) \<in> set sd" by simp
  from snapshot_entry(3)[OF a e] show "snd e \<noteq> []" by blast
  fix f assume "f \<in> set (snd e)"
  with snapshot_entry(3)[OF a e] show "endswith f ''.dcm''"
    "\<exists>n\<in>set (list_blobs ''dicoms/'' b). \<exists>p0 st.
                 study = PStr st \<and> split_on CHR ''/'' n = [p0, st, fst e, f]"
    by blast+
next
  assume "k \<in> set (missing_studies (get_storage_studies b) fs)
          \<union> set (existing_studies (get_storage_studies b) fs)"
  then have "k \<in> fst ` set (get_storage_studies b)"
    using category_subsets(5)[of "get_storage_studies b" fs] by simp
  from snapshot_lookup[OF this] obtain sd' where
    "dict_get (get_storage_studies b) k = Inr sd'" "(k, sd') \<in> set (get_storage_studies b)"
    by blast
  then show "\<exists>sd'. dict_get (get_storage_studies b) k = Inr sd' \<and> sd' \<noteq> []"
    using snapshot_entry(1) by blast
qed

lemma example_scan:
  "get_storage_studies [(''dicoms/A/s/1.dcm'', ''x''), (''dicoms/notes.txt'', ''y''),
        (''dicoms/A/s/2.txt'', ''z''), (''dicoms/A/t/u/3.dcm'', ''w'')]
     = [(PStr ''A'', [(''s'', [''1.dcm''])])]"
  by (simp add: get_storage_studies_def scan_names_def list_blobs_def startswith_def
      storage_step_def endswith_def)

theorem scanner_nondegenerate_witness:
  "(PStr ''A'', [(''s'', [''1.dcm''])]) \<in>
      set (get_storage_studies [(''dicoms/A/s/1.dcm'', ''x''), (''dicoms/notes.txt'', ''y''),
        (''dicoms/A/s/2.txt'', ''z''), (''dicoms/A/t/u/3.dcm'', ''w'')])
   \<and> [(''s'', [''1.dcm''])] \<noteq> ([] :: series_dict)
   \<and> endswith ''1.dcm'' ''.dcm''
   \<and> PStr ''A'' \<in> set (missing_studies
         (get_storage_studies [(''dicoms/A/s/1.dcm'', ''x''), (''dicoms/notes.txt'', ''y''),
            (''dicoms/A/s/2.txt'', ''z''), (''dicoms/A/t/u/3.dcm'', ''w'')]) [])
   \<and> (\<exists>sd'. dict_get (get_storage_studies [(''dicoms/A/s/1.dcm'', ''x''),
            (''dicoms/notes.txt'', ''y''), (''dicoms/A/s/2.txt'', ''z''),
            (''dicoms/A/t/u/3.dcm'', ''w'')]) (PStr ''A'') = Inr sd' \<and> sd' \<noteq> [])"
proof -
  let ?b = "[(''dicoms/A/s/1.dcm'', ''x''), (''dicoms/notes.txt'', ''y''),
        (''dicoms/A/s/2.txt'', ''z''), (''dicoms/A/t/u/3.dcm'', ''w'')]"
  have h: "(PStr ''A'', [(''s'', [''1.dcm''])]) \<in> set (get_storage_studies ?b)"
    by (simp add: example_scan)
  have m: "PStr ''A'' \<in> set (missing_studies (get_storage_studies ?b) [])"
    by (simp add: example_scan missing_studies_def storage_keys_def firestore_keys_def)
  note t = scanner_nondegenerate[of "PStr ''A''" "[(''s'', [''1.dcm''])]" ?b "PStr ''A''" "[]"]
  from t h have a: "[(''s'', [''1.dcm''])] \<noteq> ([] :: series_dict)" by blast
  from t h have "\<forall>f\<in>set (snd (''s'', [''1.dcm''])). endswith f ''.dcm''" by auto
  then have c: "endswith ''1.dcm'' ''.dcm''" by simp
  from t m have d: "\<exists>sd'. dict_get (get_storage_studies ?b) (PStr ''A'') = Inr sd' \<and> sd' \<noteq> []"
    by blast
  from h a c m d show ?thesis by (intro conjI)
qed

section \<open>Properties of create\_study\_metadata\<close>

lemmas name_eval = sorted_numerically_eq decimal_name_def isdigit_def isdecimal_def
  digit_key_def int_of_digits_def digit_val_def int_max_str_digits_def






















section \<open>Properties of sync\<close>





lemma existing_file_counts_ok:
  "set ks \<subseteq> fst ` set ss \<Longrightarrow> set ks \<subseteq> fst ` set fs \<Longrightarrow>
     \<exists>r. existing_file_counts ss fs ks = Inr r"
proof (induction ks)
  case Nil
  show ?case by simp
next
  case (Cons k ks)
  from Cons.prems obtain sd e where "dict_get ss k = Inr sd" "dict_get fs k = Inr e"
    using dict_get_Inr_iff[of ss k] dict_get_Inr_iff[of fs k] by auto
  moreover from Cons obtain r where "existing_file_counts ss fs ks = Inr r" by auto
  ultimately show ?case by simp
qed





lemma sync_counts_ok:
  "\<exists>r. existing_file_counts (get_storage_studies b) (get_firestore_studies db)
          (existing_studies (get_storage_studies b) (get_firestore_studies db)) = Inr r"
  by (rule existing_file_counts_ok) (rule category_subsets)+

lemma stub_total: "total_slices (stub_doc k) = 0"
  by (simp add: stub_doc_def)

lemma str7: "str_int 7 = ''7''"
  by (simp add: str_int_def str_nat.simps digit_char_def)

lemma str42: "str_int 42 = ''42''"
  by (simp add: str_int_def str_nat.simps digit_char_def)

lemma scanAB:
  "get_storage_studies [(''dicoms/A/s/1.dcm'', ''x''), (''dicoms/B/s/1.dcm'', ''y'')]
     = [(PStr ''A'', [(''s'', [''1.dcm''])]), (PStr ''B'', [(''s'', [''1.dcm''])])]"
  by (simp add: get_storage_studies_def scan_names_def list_blobs_def startswith_def
      storage_step_def endswith_def)

lemma fsBC:
  "get_firestore_studies [(''B'', stub_doc (PStr ''B'')), (''C'', stub_doc (PStr ''C''))]
     = [(PStr ''B'', \<lparr>doc_id = ''B'', data = stub_doc (PStr ''B'')\<rparr>),
        (PStr ''C'', \<lparr>doc_id = ''C'', data = stub_doc (PStr ''C'')\<rparr>)]"
  by (simp add: get_firestore_studies_def firestore_step_def stub_doc_def)

text \<open>
  C5. In dry-run mode sync leaves the catalog exactly as it found it, for every store
  and every catalog: no document is deleted, created or overwritten. It ends normally
  and what it produces is the summary, whose counts are the sizes of the three
  categories.
\<close>

theorem dry_run_no_mutation:
  "\<exists>rep. sync dcmread True b db = (db, Inr rep)
     \<and> n_orphaned rep = length (orphaned_studies (get_storage_studies b) (get_firestore_studies db))
     \<and> n_missing rep = length (missing_studies (get_storage_studies b) (get_firestore_studies db))
     \<and> n_existing rep = length (existing_studies (get_storage_studies b) (get_firestore_studies db))"
proof -
  obtain r where "existing_file_counts (get_storage_studies b) (get_firestore_studies db)
          (existing_studies (get_storage_studies b) (get_firestore_studies db)) = Inr r"
    using sync_counts_ok by blast
  then show ?thesis by (simp add: sync_def Let_def)
qed

theorem dry_run_no_mutation_witness:
  "sync unreadable True [(''dicoms/A/s/1.dcm'', ''x''), (''dicoms/B/s/1.dcm'', ''y'')]
      [(''B'', stub_doc (PStr ''B'')), (''C'', stub_doc (PStr ''C''))]
    = ([(''B'', stub_doc (PStr ''B'')), (''C'', stub_doc (PStr ''C''))],
       Inr \<lparr>n_orphaned = 1, n_missing = 1, n_existing = 1,
            file_counts = [(PStr ''B'', 1, 0)]\<rparr>)"
  using dry_run_no_mutation[of unreadable
      "[(''dicoms/A/s/1.dcm'', ''x''), (''dicoms/B/s/1.dcm'', ''y'')]"
      "[(''B'', stub_doc (PStr ''B'')), (''C'', stub_doc (PStr ''C''))]"]
  by (simp add: sync_def scanAB fsBC orphaned_studies_def missing_studies_def
      existing_studies_def storage_keys_def firestore_keys_def dict_get_def stub_total)













section \<open>Properties of the uploader\<close>

lemma upload_files_Cons:
  "upload_files dcmread study ser (f # fs) st =
     upload_files dcmread study ser fs
       \<lparr>us_bucket = (if blob_exists (us_bucket st) (dest_path study ser (fst f))
                      then us_bucket st
                      else us_bucket st @ [(dest_path study ser (fst f), snd f)]),
        us_uploaded_count = (if blob_exists (us_bucket st) (dest_path study ser (fst f))
                             then us_uploaded_count st else us_uploaded_count st + 1),
        us_skipped_count = (if blob_exists (us_bucket st) (dest_path study ser (fst f))
                            then us_skipped_count st + 1 else us_skipped_count st),
        us_file_list = us_file_list st @ [local_file_rec dcmread study ser f]\<rparr>"
  by (simp add: Let_def upload_dicom_file_def dest_path_def local_file_rec_def)

lemma upload_files_file_list:
  "us_file_list (upload_files dcmread study ser fs st)
     = us_file_list st @ map (local_file_rec dcmread study ser) fs"
  by (induction fs arbitrary: st) (simp_all add: upload_files_Cons del: upload_files.simps(2))

lemma upload_files_counts:
  "us_uploaded_count (upload_files dcmread study ser fs st)
     + us_skipped_count (upload_files dcmread study ser fs st)
   = us_uploaded_count st + us_skipped_count st + length fs"
  by (induction fs arbitrary: st) (simp_all add: upload_files_Cons del: upload_files.simps(2))






lemma upload_series_empty:
  "dcm_glob d = [] \<Longrightarrow> upload_series dcmread b study ser d = (b, None)"
  by (simp add: upload_series_def)

lemma upload_series_nonempty:
  assumes "dcm_glob d = f # fs"
  shows "upload_series dcmread b study ser d =
     (us_bucket (upload_files dcmread study ser (dcm_glob d) (init_state b)),
      Some \<lparr>series_id = PInt ser,
            description = md_series_description (get_dicom_metadata dcmread (snd f)),
            slice_count = length (dcm_glob d),
            files = map (local_file_rec dcmread study ser) (dcm_glob d),
            storage_path = ''dicoms/'' @ str_int study @ ''/'' @ str_int ser @ ''/'',
            uploaded_count = Some (us_uploaded_count
               (upload_files dcmread study ser (dcm_glob d) (init_state b))),
            skipped_count = Some (us_skipped_count
               (upload_files dcmread study ser (dcm_glob d) (init_state b)))\<rparr>)"
proof -
  have fl: "us_file_list (upload_files dcmread study ser (f # fs) (init_state b))
            = map (local_file_rec dcmread study ser) (f # fs)"
    by (simp only: upload_files_file_list) (simp add: init_state_def)
  show ?thesis
    unfolding upload_series_def Let_def assms list.case init_state_def[symmetric] fl ..
qed


lemma upload_series_None_iff:
  "snd (upload_series dcmread b study ser d) = None \<longleftrightarrow> dcm_glob d = []"
proof (cases "dcm_glob d")
  case Nil
  then show ?thesis by (simp add: upload_series_empty)
next
  case (Cons f fs)
  show ?thesis by (simp only: upload_series_nonempty[OF Cons] snd_conv) (simp add: Cons)
qed

lemma upload_series_props:
  assumes "snd (upload_series dcmread b study ser d) = Some s"
  shows "dcm_glob d \<noteq> []"
    and "series_id s = PInt ser"
    and "slice_count s = length (dcm_glob d)"
    and "files s = map (local_file_rec dcmread study ser) (dcm_glob d)"
    and "storage_path s = ''dicoms/'' @ str_int study @ ''/'' @ str_int ser @ ''/''"
    and "uploaded_count s = Some (us_uploaded_count
               (upload_files dcmread study ser (dcm_glob d) (init_state b)))"
    and "skipped_count s = Some (us_skipped_count
               (upload_files dcmread study ser (dcm_glob d) (init_state b)))"
proof -
  show ne: "dcm_glob d \<noteq> []"
    using assms upload_series_None_iff[of dcmread b study ser d] by auto
  then obtain f fs where c: "dcm_glob d = f # fs" by (cases "dcm_glob d") auto
  from assms have s: "s = \<lparr>series_id = PInt ser,
            description = md_series_description (get_dicom_metadata dcmread (snd f)),
            slice_count = length (dcm_glob d),
            files = map (local_file_rec dcmread study ser) (dcm_glob d),
            storage_path = ''dicoms/'' @ str_int study @ ''/'' @ str_int ser @ ''/'',
            uploaded_count = Some (us_uploaded_count
               (upload_files dcmread study ser (dcm_glob d) (init_state b))),
            skipped_count = Some (us_skipped_count
               (upload_files dcmread study ser (dcm_glob d) (init_state b)))\<rparr>"
    by (simp only: upload_series_nonempty[OF c] snd_conv option.inject)
  show "series_id s = PInt ser" by (subst s) simp
  show "slice_count s = length (dcm_glob d)" by (subst s) simp
  show "files s = map (local_file_rec dcmread study ser) (dcm_glob d)" by (subst s) simp
  show "storage_path s = ''dicoms/'' @ str_int study @ ''/'' @ str_int ser @ ''/''"
    by (subst s) simp
  show "uploaded_count s = Some (us_uploaded_count
               (upload_files dcmread study ser (dcm_glob d) (init_state b)))"
    by (subst s) simp
  show "skipped_count s = Some (us_skipped_count
               (upload_files dcmread study ser (dcm_glob d) (init_state b)))"
    by (subst s) simp
qed

lemma upload_all_series_Cons:
  "upload_all_series dcmread study (d # ds) b acc =
     (case py_int (sd_name d) of
        Inl err \<Rightarrow> (b, Inl err)
      | Inr ser \<Rightarrow>
          upload_all_series dcmread study ds (fst (upload_series dcmread b study ser d))
            (case snd (upload_series dcmread b study ser d) of
               None \<Rightarrow> acc | Some s \<Rightarrow> acc @ [s]))"
  by (simp split: sum.splits prod.splits option.splits)

lemma upload_all_series_Inr:
  "snd (upload_all_series dcmread study ds b acc) = Inr r \<Longrightarrow>
     \<exists>new. r = acc @ new \<and>
       list_all2 (\<lambda>d s. \<exists>ser bb. py_int (sd_name d) = Inr ser
                     \<and> snd (upload_series dcmread bb study ser d) = Some s)
         (filter (\<lambda>d. dcm_glob d \<noteq> []) ds) new"
proof (induction ds arbitrary: b acc)
  case Nil
  then show ?case by simp
next
  case (Cons d ds)
  from Cons.prems obtain ser where ser: "py_int (sd_name d) = Inr ser"
    by (cases "py_int (sd_name d)") (simp_all add: upload_all_series_Cons del: upload_all_series.simps)
  let ?b' = "fst (upload_series dcmread b study ser d)"
  let ?acc' = "case snd (upload_series dcmread b study ser d) of None \<Rightarrow> acc | Some s \<Rightarrow> acc @ [s]"
  from Cons.prems ser have "snd (upload_all_series dcmread study ds ?b' ?acc') = Inr r"
    by (simp add: upload_all_series_Cons del: upload_all_series.simps)
  from Cons.IH[OF this] obtain new where new: "r = ?acc' @ new"
    "list_all2 (\<lambda>d s. \<exists>ser bb. py_int (sd_name d) = Inr ser
                     \<and> snd (upload_series dcmread bb study ser d) = Some s)
         (filter (\<lambda>d. dcm_glob d \<noteq> []) ds) new" by blast
  show ?case
  proof (cases "snd (upload_series dcmread b study ser d)")
    case None
    then have "dcm_glob d = []" by (simp add: upload_series_None_iff)
    with new None show ?thesis by simp
  next
    case (Some s)
    then have "dcm_glob d \<noteq> []" using upload_series_None_iff[of dcmread b study ser d] by simp
    moreover have "\<exists>ser bb. py_int (sd_name d) = Inr ser
                     \<and> snd (upload_series dcmread bb study ser d) = Some s"
      using ser Some by blast
    ultimately show ?thesis using new Some by (intro exI[of _ "s # new"]) simp
  qed
qed

lemma upload_study_Some:
  assumes "snd (upload_study dcmread now b db sdir) = Inr (Some doc)"
  shows "\<exists>study r. py_int (st_name sdir) = Inr study \<and> st_subdirs sdir \<noteq> []
           \<and> snd (upload_all_series dcmread study (sort_key sd_name (st_subdirs sdir)) b []) = Inr r
           \<and> doc = \<lparr>study_id = PInt study, series = r, total_series = length r,
                      total_slices = sum_list (map slice_count r),
                      upload_date = IsoFormat now, status = ''ready''\<rparr>"
proof (cases "py_int (st_name sdir)")
  case (Inl e)
  with assms show ?thesis by (simp add: upload_study_def)
next
  case (Inr study)
  show ?thesis
  proof (cases "st_subdirs sdir = []")
    case True
    with assms Inr show ?thesis by (simp add: upload_study_def)
  next
    case False
    obtain b' res where u: "upload_all_series dcmread study (sort_key sd_name (st_subdirs sdir)) b []
        = (b', res)" by (cases "upload_all_series dcmread study (sort_key sd_name (st_subdirs sdir)) b []")
    show ?thesis
    proof (cases res)
      case (Inl e)
      with assms Inr False u show ?thesis by (simp add: upload_study_def)
    next
      case (Inr r)
      with assms \<open>py_int (st_name sdir) = Inr study\<close> False u show ?thesis
        by (auto simp: upload_study_def Let_def)
    qed
  qed
qed


lemma recon_doc_invariant:
  assumes "create_study_metadata dcmread b study sd = Inr doc"
  shows "doc_invariant doc"
proof -
  have "list_all2 (\<lambda>e s. series_entry dcmread b study e = Inr s) sd (series doc)"
    by (rule create_study_metadata_series(1)[OF assms])
  then have "\<forall>s\<in>set (series doc). slice_count s = length (files s)"
    by (auto simp: list_all2_conv_all_nth in_set_conv_nth
        dest!: series_entry_fields(2,4)) (metis series_entry_fields(2,4))
  then show ?thesis
    using create_study_metadata_series(3,4)[OF assms]
    by (simp add: doc_invariant_def list_all_iff)
qed

lemma upload_doc_invariant:
  assumes "snd (upload_study dcmread now b db sdir) = Inr (Some doc)"
  shows "doc_invariant doc"
proof -
  from upload_study_Some[OF assms] obtain study r where
    r: "snd (upload_all_series dcmread study (sort_key sd_name (st_subdirs sdir)) b []) = Inr r"
    and doc: "doc = \<lparr>study_id = PInt study, series = r, total_series = length r,
                      total_slices = sum_list (map slice_count r),
                      upload_date = IsoFormat now, status = ''ready''\<rparr>"
    by blast
  from upload_all_series_Inr[OF r] obtain new where new: "r = new"
    "list_all2 (\<lambda>d s. \<exists>ser bb. py_int (sd_name d) = Inr ser
                     \<and> snd (upload_series dcmread bb study ser d) = Some s)
         (filter (\<lambda>d. dcm_glob d \<noteq> []) (sort_key sd_name (st_subdirs sdir))) new"
    by auto
  have "slice_count s = length (files s)" if "s \<in> set r" for s
  proof -
    from that new obtain d ser bb where "snd (upload_series dcmread bb study ser d) = Some s"
      by (auto simp: list_all2_conv_all_nth in_set_conv_nth)
    from upload_series_props(3,4)[OF this] show ?thesis by simp
  qed
  then show ?thesis by (simp add: doc doc_invariant_def list_all_iff)
qed

text \<open>
  C9. Every document returned by create\_study\_metadata and every document returned by
  upload\_study satisfies the invariants of the data model: total\_series is the length
  of the series list, total\_slices is the sum of the slice counts of the series, and
  the slice count of every series is the length of its files list.
\<close>

theorem documents_satisfy_invariants:
  "(create_study_metadata dcmread b study sd = Inr doc \<longrightarrow> doc_invariant doc)
   \<and> (snd (upload_study dcmread now b' db sdir) = Inr (Some doc') \<longrightarrow> doc_invariant doc')"
  using recon_doc_invariant upload_doc_invariant by blast

lemma py_int_1: "py_int ''1'' = Inr 1"
  by (simp add: py_int_def strip_def isspace_def isdecimal_def int_of_digits_def digit_val_def
      int_max_str_digits_def)

lemma py_int_2: "py_int ''2'' = Inr 2"
  by (simp add: py_int_def strip_def isspace_def isdecimal_def int_of_digits_def digit_val_def
      int_max_str_digits_def)

lemma py_int_007: "py_int '' 0_07'' = Inr 7"
  by (simp add: py_int_def strip_def isspace_def isdecimal_def int_of_digits_def digit_val_def
      int_max_str_digits_def)

lemma py_int_bad: "py_int ''a1'' = Inl ValueError"
  by (simp add: py_int_def strip_def isspace_def isdecimal_def int_of_digits_def digit_val_def
      int_max_str_digits_def)

lemma str_int_1: "str_int 1 = ''1''"
  by (simp add: str_int_def str_nat.simps digit_char_def)

lemma str_int_2: "str_int 2 = ''2''"
  by (simp add: str_int_def str_nat.simps digit_char_def)

lemma example_upload:
  "upload_study unreadable ''t'' [] []
     \<lparr>st_name = ''1'', st_subdirs = [\<lparr>sd_name = ''2'', sd_files = [(''a.dcm'', ''xy'')]\<rparr>]\<rparr>
   = (([(''dicoms/1/2/a.dcm'', ''xy'')],
       [(''1'', \<lparr>study_id = PInt 1,
          series = [\<lparr>series_id = PInt 2, description = ''Unknown'', slice_count = 1,
                     files = [\<lparr>filename = ''a.dcm'', instance_number = 0, slice_location = 0,
                               file_storage_path = Some ''dicoms/1/2/a.dcm'',
                               file_size = Some 2\<rparr>],
                     storage_path = ''dicoms/1/2/'',
                     uploaded_count = Some 1, skipped_count = Some 0\<rparr>],
          total_series = 1, total_slices = 1, upload_date = IsoFormat ''t'',
          status = ''ready''\<rparr>)]),
      Inr (Some \<lparr>study_id = PInt 1,
          series = [\<lparr>series_id = PInt 2, description = ''Unknown'', slice_count = 1,
                     files = [\<lparr>filename = ''a.dcm'', instance_number = 0, slice_location = 0,
                               file_storage_path = Some ''dicoms/1/2/a.dcm'',
                               file_size = Some 2\<rparr>],
                     storage_path = ''dicoms/1/2/'',
                     uploaded_count = Some 1, skipped_count = Some 0\<rparr>],
          total_series = 1, total_slices = 1, upload_date = IsoFormat ''t'',
          status = ''ready''\<rparr>))"
  by (simp add: upload_study_def py_int_1 py_int_2 str_int_1 str_int_2 upload_series_def
      dcm_glob_def endswith_def upload_dicom_file_def blob_exists_def get_dicom_metadata_def
      unreadable_def doc_set_def Let_def)

lemma example_recon:
  "create_study_metadata unreadable [] (PStr ''1'') [(''2'', [''a.dcm''])]
   = Inr \<lparr>study_id = PStr ''1'',
          series = [\<lparr>series_id = PStr ''2'', description = [], slice_count = 1,
                     files = [\<lparr>filename = ''a.dcm'', instance_number = 0, slice_location = 0,
                               file_storage_path = None, file_size = None\<rparr>],
                     storage_path = ''dicoms/1/2/'',
                     uploaded_count = None, skipped_count = None\<rparr>],
          total_series = 1, total_slices = 1, upload_date = SERVER_TIMESTAMP,
          status = ''ready''\<rparr>"
  by (simp add: create_study_metadata_def series_entry_def name_eval download_dicom_metadata_def)














theorem documents_satisfy_invariants_witness:
  "create_study_metadata unreadable [] (PStr ''1'') [(''2'', [''a.dcm''])]
     = Inr \<lparr>study_id = PStr ''1'',
          series = [\<lparr>series_id = PStr ''2'', description = [], slice_count = 1,
                     files = [\<lparr>filename = ''a.dcm'', instance_number = 0, slice_location = 0,
                               file_storage_path = None, file_size = None\<rparr>],
                     storage_path = ''dicoms/1/2/'',
                     uploaded_count = None, skipped_count = None\<rparr>],
          total_series = 1, total_slices = 1, upload_date = SERVER_TIMESTAMP,
          status = ''ready''\<rparr>
   \<and> doc_invariant \<lparr>study_id = PStr ''1'',
          series = [\<lparr>series_id = PStr ''2'', description = [], slice_count = 1,
                     files = [\<lparr>filename = ''a.dcm'', instance_number = 0, slice_location = 0,
                               file_storage_path = None, file_size = None\<rparr>],
                     storage_path = ''dicoms/1/2/'',
                     uploaded_count = None, skipped_count = None\<rparr>],
          total_series = 1, total_slices = 1, upload_date = SERVER_TIMESTAMP,
          status = ''ready''\<rparr>
   \<and> doc_invariant \<lparr>study_id = PInt 1,
          series = [\<lparr>series_id = PInt 2, description = ''Unknown'', slice_count = 1,
                     files = [\<lparr>filename = ''a.dcm'', instance_number = 0, slice_location = 0,
                               file_storage_path = Some ''dicoms/1/2/a.dcm'',
                               file_size = Some 2\<rparr>],
                     storage_path = ''dicoms/1/2/'',
                     uploaded_count = Some 1, skipped_count = Some 0\<rparr>],
          total_series = 1, total_slices = 1, upload_date = IsoFormat ''t'',
          status = ''ready''\<rparr>"
proof -
  let ?D = "\<lparr>st_name = ''1'', st_subdirs = [\<lparr>sd_name = ''2'', sd_files = [(''a.dcm'', ''xy'')]\<rparr>]\<rparr>"
  let ?dr = "\<lparr>study_id = PStr ''1'',
          series = [\<lparr>series_id = PStr ''2'', description = [], slice_count = 1,
                     files = [\<lparr>filename = ''a.dcm'', instance_number = 0, slice_location = 0,
                               file_storage_path = None, file_size = None\<rparr>],
                     storage_path = ''dicoms/1/2/'',
                     uploaded_count = None, skipped_count = None\<rparr>],
          total_series = 1, total_slices = 1, upload_date = SERVER_TIMESTAMP,
          status = ''ready''\<rparr>"
  let ?di = "\<lparr>study_id = PInt 1,
          series = [\<lparr>series_id = PInt 2, description = ''Unknown'', slice_count = 1,
                     files = [\<lparr>filename = ''a.dcm'', instance_number = 0, slice_location = 0,
                               file_storage_path = Some ''dicoms/1/2/a.dcm'',
                               file_size = Some 2\<rparr>],
                     storage_path = ''dicoms/1/2/'',
                     uploaded_count = Some 1, skipped_count = Some 0\<rparr>],
          total_series = 1, total_slices = 1, upload_date = IsoFormat ''t'',
          status = ''ready''\<rparr>"
  have r: "create_study_metadata unreadable [] (PStr ''1'') [(''2'', [''a.dcm''])] = Inr ?dr"
    by (rule example_recon)
  have i: "snd (upload_study unreadable ''t'' [] [] ?D) = Inr (Some ?di)"
    by (simp only: example_upload snd_conv)
  from documents_satisfy_invariants[of unreadable "[]" "PStr ''1''" "[(''2'', [''a.dcm''])]" ?dr
      "''t''" "[]" "[]" ?D ?di] r i
  show ?thesis by blast
qed

section \<open>The two document builders compared\<close>

















end
